theory Spec2Isabelle
  imports Main "HOL-Library.AList"
begin

section \<open>JSON values and the Python operations the memory bank applies to them\<close>

text \<open>
  The memory state is whatever \<^verbatim>\<open>json.load\<close> returned: a tree of Python values.
  A dict is an association list in insertion order (keys of a loaded dict are distinct
  strings); numbers are integers, since no operation of the memory bank looks inside
  a number.
\<close>

datatype json =
    JNull
  | JBool bool
  | JInt int
  | JStr string
  | JList "json list"
  | JDict "(string \<times> json) list"

datatype error =
    KeyError
  | TypeError
  | AttributeError
  | RecursionError
  | UnboundLocalError
  | UnicodeEncodeError

definition and_then :: "error + 'a \<Rightarrow> ('a \<Rightarrow> error + 'b) \<Rightarrow> error + 'b" where
  "and_then r f = (case r of Inl e \<Rightarrow> Inl e | Inr x \<Rightarrow> f x)"

text \<open>\<^verbatim>\<open>isinstance(v, dict)\<close> and \<^verbatim>\<open>isinstance(v, list)\<close>.\<close>

fun is_dict :: "json \<Rightarrow> bool" where
  "is_dict (JDict d) = True"
| "is_dict v = False"

fun is_list :: "json \<Rightarrow> bool" where
  "is_list (JList xs) = True"
| "is_list v = False"

fun starts_with :: "string \<Rightarrow> string \<Rightarrow> bool" where
  "starts_with [] s = True"
| "starts_with (c # cs) [] = False"
| "starts_with (c # cs) (d # ds) = (c = d \<and> starts_with cs ds)"

fun substring :: "string \<Rightarrow> string \<Rightarrow> bool" where
  "substring k [] = (k = [])"
| "substring k (c # cs) = (starts_with k (c # cs) \<or> substring k cs)"

text \<open>
  \<^verbatim>\<open>k in v\<close> for a string \<open>k\<close>: key membership in a dict, element membership in a
  list, substring test in a str, and a TypeError for None, a bool or a number.
\<close>

fun contains :: "json \<Rightarrow> string \<Rightarrow> error + bool" where
  "contains (JDict d) k = Inr (map_of d k \<noteq> None)"
| "contains (JList xs) k = Inr (List.member xs (JStr k))"
| "contains (JStr s) k = Inr (substring k s)"
| "contains v k = Inl TypeError"

text \<open>
  \<^verbatim>\<open>v[k]\<close> for a string \<open>k\<close>: a KeyError on a dict without the key, a TypeError
  on every value that is not a dict (a list and a str take integer indices only).
\<close>

fun getitem :: "json \<Rightarrow> string \<Rightarrow> error + json" where
  "getitem (JDict d) k = (case map_of d k of None \<Rightarrow> Inl KeyError | Some x \<Rightarrow> Inr x)"
| "getitem v k = Inl TypeError"

text \<open>\<^verbatim>\<open>v[k] = x\<close> for a string \<open>k\<close>, returning the container after the assignment.\<close>

fun setitem :: "json \<Rightarrow> string \<Rightarrow> json \<Rightarrow> error + json" where
  "setitem (JDict d) k x = Inr (JDict (AList.update k x d))"
| "setitem v k x = Inl TypeError"

text \<open>\<^verbatim>\<open>v.append(x)\<close>: only a list has the method.\<close>

fun append_item :: "json \<Rightarrow> json \<Rightarrow> error + json" where
  "append_item (JList xs) x = Inr (JList (xs @ [x]))"
| "append_item v x = Inl AttributeError"

text \<open>
  \<^verbatim>\<open>v[k1][k2]...[kn]\<close> followed by an in-place change \<open>f\<close> of the object reached:
  the objects on the way are read with \<open>getitem\<close>, and the container is returned with
  the changed object in its place.
\<close>

fun modify_at :: "string list \<Rightarrow> (json \<Rightarrow> error + json) \<Rightarrow> json \<Rightarrow> error + json" where
  "modify_at [] f v = f v"
| "modify_at (k # ks) f v =
     and_then (getitem v k) (\<lambda>inner.
     and_then (modify_at ks f inner) (\<lambda>inner'. setitem v k inner'))"

section \<open>The manager, its files and its clock (core.py)\<close>

text \<open>
  The state file either does not exist, holds text that \<^verbatim>\<open>json.load\<close> rejects with
  JSONDecodeError, or holds the text of a JSON value. \<^verbatim>\<open>json.dump\<close> followed by
  \<^verbatim>\<open>json.load\<close> gives the value back.
\<close>

datatype disk_file = Missing | Unparsable | Holds json

text \<open>
  A text file holds the text that reading it gives, or bytes that the encoding of the
  text files cannot decode, so that reading it raises.
\<close>

datatype text_file = Text string | Undecodable

datatype path = Path string string

fun path_name :: "path \<Rightarrow> string" where
  "path_name (Path dir file_name) = file_name"

text \<open>
  The manager object together with the part of the world it touches:
  \<open>project_root\<close> is \<^verbatim>\<open>os.path.basename(self.project_root)\<close>, \<open>files\<close> are the text
  files by path (the markdown projections), \<open>clock\<close> and \<open>ticks\<close> give the successive
  results of \<^verbatim>\<open>datetime.datetime.now().isoformat()\<close>, \<open>linesep\<close> is \<^verbatim>\<open>os.linesep\<close>,
  \<open>encodable\<close> tells whether the encoding of the text files can represent a str (a str
  with a lone surrogate is one that UTF-8 cannot represent) and \<open>str_of\<close> is the text an
  f-string puts for a value. The project root is taken to exist and to be writable.
\<close>

record manager =
  project_root :: string
  memory_path :: string
  memory_state :: json
  state_file :: disk_file
  backup_file :: disk_file
  files :: "path \<Rightarrow> text_file option"
  clock :: "nat \<Rightarrow> string"
  ticks :: nat
  linesep :: string
  encodable :: "string \<Rightarrow> bool"
  str_of :: "json \<Rightarrow> string"

type_synonym 'a action = "manager \<Rightarrow> (error + 'a) \<times> manager"

definition returns :: "'a \<Rightarrow> 'a action" where
  "returns x m = (Inr x, m)"

definition raises :: "error \<Rightarrow> 'a action" where
  "raises e m = (Inl e, m)"

definition then_do :: "'a action \<Rightarrow> ('a \<Rightarrow> 'b action) \<Rightarrow> 'b action" where
  "then_do f g m = (case f m of (Inl e, m') \<Rightarrow> (Inl e, m') | (Inr x, m') \<Rightarrow> g x m')"

text \<open>Evaluating an expression over the memory state, and running one assignment on it.\<close>

definition inspect :: "(json \<Rightarrow> error + 'a) \<Rightarrow> 'a action" where
  "inspect f m = (f (memory_state m), m)"

definition mutate :: "(json \<Rightarrow> error + json) \<Rightarrow> unit action" where
  "mutate f m =
     (case f (memory_state m) of
        Inl e \<Rightarrow> (Inl e, m)
      | Inr ms \<Rightarrow> (Inr (), m\<lparr>memory_state := ms\<rparr>))"

definition now :: "string action" where
  "now m = (Inr (clock m (ticks m)), m\<lparr>ticks := Suc (ticks m)\<rparr>)"

definition section_dependencies :: "(string \<times> string list) list" where
  "section_dependencies =
     [(''projectInfo'', []),
      (''productContext'', [''projectInfo'']),
      (''systemPatterns'', [''projectInfo'']),
      (''standards'', [''systemPatterns'']),
      (''technologies'', [''projectInfo'']),
      (''tasks'', [''productContext'', ''systemPatterns'', ''technologies'']),
      (''changeHistory'', [])]"

definition initial_state :: "string \<Rightarrow> string \<Rightarrow> string \<Rightarrow> json" where
  "initial_state root_name created updated =
     JDict
      [(''metadata'', JDict
          [(''created'', JStr created),
           (''lastUpdated'', JStr updated),
           (''version'', JStr ''1.0.0'')]),
       (''projectInfo'', JDict
          [(''name'', JStr root_name),
           (''description'', JStr ''''),
           (''content'', JStr ''''),
           (''status'', JStr ''Not Started'')]),
       (''productContext'', JDict
          [(''content'', JStr ''''), (''status'', JStr ''Pending'')]),
       (''systemPatterns'', JDict
          [(''content'', JStr ''''), (''status'', JStr ''Pending'')]),
       (''technologies'', JDict
          [(''content'', JStr ''''), (''items'', JList []), (''status'', JStr ''Pending'')]),
       (''tasks'', JDict
          [(''current'', JDict
              [(''description'', JStr ''''),
               (''status'', JStr ''Pending''),
               (''steps'', JList []),
               (''activeContext'', JStr '''')]),
           (''history'', JList [])]),
       (''standards'', JDict
          [(''content'', JStr ''''), (''items'', JList []), (''status'', JStr ''Pending'')]),
       (''changeHistory'', JList [])]"

text \<open>
  The body of \<^verbatim>\<open>if not state_file.exists():\<close> in \<^verbatim>\<open>init_memory_bank\<close>: the two
  timestamps are read one after the other, then the initial state is dumped.
\<close>

definition write_initial_state :: "manager \<Rightarrow> manager" where
  "write_initial_state m =
     (let created = clock m (ticks m);
          updated = clock m (Suc (ticks m))
      in m\<lparr>ticks := Suc (Suc (ticks m)),
            state_file := Holds (initial_state (project_root m) created updated)\<rparr>)"

text \<open>
  \<^verbatim>\<open>init_memory_bank\<close> and \<^verbatim>\<open>load_memory_state\<close> call each other. The first argument
  is the number of call frames left before the interpreter's recursion limit: a call made
  with none left raises RecursionError, which the \<^verbatim>\<open>except\<close> clause of
  \<^verbatim>\<open>load_memory_state\<close> (JSONDecodeError, FileNotFoundError) does not catch.
\<close>

fun init_memory_bank :: "nat \<Rightarrow> unit action"
  and load_memory_state :: "nat \<Rightarrow> unit action" where
  "init_memory_bank 0 m = (Inl RecursionError, m)"
| "init_memory_bank (Suc depth) m =
     (if state_file m = Missing
      then load_memory_state depth (write_initial_state m)
      else load_memory_state depth m)"
| "load_memory_state 0 m = (Inl RecursionError, m)"
| "load_memory_state (Suc depth) m =
     (case state_file m of
        Holds v \<Rightarrow> (Inr (), m\<lparr>memory_state := v\<rparr>)
      | Missing \<Rightarrow> init_memory_bank depth m
      | Unparsable \<Rightarrow> init_memory_bank depth m)"

text \<open>
  \<^verbatim>\<open>MemoryBankManager(project_root)\<close>: the constructor sets the memory state to the
  empty dict and calls \<^verbatim>\<open>init_memory_bank\<close>.
\<close>

definition open_manager :: "nat \<Rightarrow> unit action" where
  "open_manager depth m = init_memory_bank depth (m\<lparr>memory_state := JDict []\<rparr>)"

text \<open>
  \<^verbatim>\<open>save_memory_state\<close>: the timestamp is evaluated first, then
  \<^verbatim>\<open>self.memory_state["metadata"]\<close> is read and its \<^verbatim>\<open>lastUpdated\<close> assigned; then
  the state file, when it exists, is copied to the backup, and the state is dumped.
\<close>

definition write_state_file :: "unit action" where
  "write_state_file m =
     (let m' = (if state_file m \<noteq> Missing then m\<lparr>backup_file := state_file m\<rparr> else m)
      in (Inr (), m'\<lparr>state_file := Holds (memory_state m')\<rparr>))"

definition save_memory_state :: "unit action" where
  "save_memory_state =
     then_do now (\<lambda>stamp.
     then_do (mutate (modify_at [''metadata''] (\<lambda>meta. setitem meta ''lastUpdated'' (JStr stamp)))) (\<lambda>_.
     write_state_file))"

section \<open>Sections (sections.py)\<close>

definition get_section :: "string \<Rightarrow> json option action" where
  "get_section section_name =
     then_do (inspect (\<lambda>ms. contains ms section_name)) (\<lambda>present.
     if present
     then then_do (inspect (\<lambda>ms. getitem ms section_name)) (\<lambda>v. returns (Some v))
     else returns None)"

text \<open>
  \<^verbatim>\<open>metadata and key in metadata\<close> for the optional dict argument: None and the empty
  dict are false.
\<close>

fun carries :: "(string \<times> json) list option \<Rightarrow> string \<Rightarrow> bool" where
  "carries None k = False"
| "carries (Some md) k = (md \<noteq> [] \<and> map_of md k \<noteq> None)"

text \<open>\<^verbatim>\<open>metadata[key]\<close> and \<^verbatim>\<open>metadata.get(key, default)\<close> on that argument.\<close>

fun metadata_index :: "(string \<times> json) list option \<Rightarrow> string \<Rightarrow> error + json" where
  "metadata_index None k = Inl TypeError"
| "metadata_index (Some md) k = (case map_of md k of None \<Rightarrow> Inl KeyError | Some v \<Rightarrow> Inr v)"

fun metadata_get :: "(string \<times> json) list option \<Rightarrow> string \<Rightarrow> json \<Rightarrow> error + json" where
  "metadata_get None k dflt = Inl AttributeError"
| "metadata_get (Some md) k dflt = (case map_of md k of None \<Rightarrow> Inr dflt | Some v \<Rightarrow> Inr v)"

text \<open>
  \<^verbatim>\<open>for key, value in metadata.items(): memory_state[section_name][key] = value\<close>
\<close>

fun overlay :: "string \<Rightarrow> (string \<times> json) list \<Rightarrow> unit action" where
  "overlay section_name [] = returns ()"
| "overlay section_name ((key, val) # rest) =
     then_do (mutate (modify_at [section_name] (\<lambda>sec. setitem sec key val))) (\<lambda>_.
     overlay section_name rest)"

text \<open>
  The two independent steps of the \<^verbatim>\<open>tasks\<close> branch of \<^verbatim>\<open>update_section\<close>. The
  right-hand side of an assignment and the entries of a dict display are evaluated
  before the target is reached.
\<close>

definition write_active_context :: "string \<Rightarrow> (string \<times> json) list option \<Rightarrow> unit action" where
  "write_active_context section_name metadata =
     (if carries metadata ''activeContext''
      then then_do (\<lambda>m. (metadata_index metadata ''activeContext'', m)) (\<lambda>ctx.
           mutate (modify_at [section_name, ''current'']
                     (\<lambda>cur. setitem cur ''activeContext'' ctx)))
      else returns ())"

definition log_progress :: "string \<Rightarrow> (string \<times> json) list option \<Rightarrow> unit action" where
  "log_progress section_name metadata =
     (if carries metadata ''progress''
      then then_do now (\<lambda>stamp.
           then_do (\<lambda>m. (metadata_get metadata ''description'' (JStr ''Task completed''), m)) (\<lambda>description.
           then_do (\<lambda>m. (metadata_index metadata ''progress'', m)) (\<lambda>progress.
           mutate (modify_at [section_name, ''history'']
             (\<lambda>history. append_item history
                (JDict [(''timestamp'', JStr stamp),
                        (''description'', description),
                        (''progress'', progress),
                        (''status'', JStr ''Completed'')]))))))
      else returns ())"

text \<open>The \<^verbatim>\<open>if\<close>/\<^verbatim>\<open>elif\<close> chain of \<^verbatim>\<open>update_section\<close> on the section name.\<close>

definition write_section :: "string \<Rightarrow> json \<Rightarrow> (string \<times> json) list option \<Rightarrow> unit action" where
  "write_section section_name content metadata =
     (if section_name = ''projectInfo'' then
        then_do (mutate (modify_at [section_name] (\<lambda>sec. setitem sec ''content'' content))) (\<lambda>_.
        case metadata of
          None \<Rightarrow> returns ()
        | Some md \<Rightarrow> overlay section_name md)
      else if section_name = ''technologies'' then
        mutate (modify_at [section_name] (\<lambda>sec. setitem sec ''content'' content))
      else if section_name = ''tasks'' then
        then_do (write_active_context section_name metadata) (\<lambda>_.
        log_progress section_name metadata)
      else
        then_do (inspect (\<lambda>ms. getitem ms section_name)) (\<lambda>sec.
        if is_dict sec
        then mutate (modify_at [section_name] (\<lambda>sec. setitem sec ''content'' content))
        else returns ()))"

text \<open>
  \<^verbatim>\<open>if isinstance(memory_state[section_name], dict) and "status" in memory_state[section_name]:\<close>
  \<^verbatim>\<open>memory_state[section_name]["status"] = "Complete"\<close>
\<close>

definition mark_complete :: "string \<Rightarrow> unit action" where
  "mark_complete section_name =
     then_do (inspect (\<lambda>ms. getitem ms section_name)) (\<lambda>sec.
     if is_dict sec then
       then_do (inspect (\<lambda>ms. and_then (getitem ms section_name) (\<lambda>s. contains s ''status''))) (\<lambda>has_status.
       if has_status
       then mutate (modify_at [section_name] (\<lambda>s. setitem s ''status'' (JStr ''Complete'')))
       else returns ())
     else returns ())"

definition update_section :: "string \<Rightarrow> json \<Rightarrow> (string \<times> json) list option \<Rightarrow> bool action" where
  "update_section section_name content metadata =
     then_do (inspect (\<lambda>ms. contains ms section_name)) (\<lambda>present.
     if present then
       then_do (write_section section_name content metadata) (\<lambda>_.
       then_do (mark_complete section_name) (\<lambda>_.
       then_do save_memory_state (\<lambda>_.
       returns True)))
     else returns False)"

text \<open>
  The body of the loop of \<^verbatim>\<open>check_dependencies_complete\<close> over the dependencies,
  with its early \<^verbatim>\<open>return False\<close> and its two \<^verbatim>\<open>continue\<close>.
\<close>

fun dependencies_loop :: "json \<Rightarrow> string list \<Rightarrow> error + bool" where
  "dependencies_loop ms [] = Inr True"
| "dependencies_loop ms (dep # deps) =
     and_then (contains ms dep) (\<lambda>present.
     if \<not> present then Inr False
     else and_then (getitem ms dep) (\<lambda>sec.
     if \<not> is_dict sec then dependencies_loop ms deps
     else and_then (contains sec ''status'') (\<lambda>has_status.
     if \<not> has_status then dependencies_loop ms deps
     else and_then (getitem sec ''status'') (\<lambda>status.
     if status \<noteq> JStr ''Complete'' then Inr False
     else dependencies_loop ms deps))))"

definition check_dependencies_complete :: "json \<Rightarrow> string \<Rightarrow> error + bool" where
  "check_dependencies_complete ms section_name =
     (case map_of section_dependencies section_name of
        Some dependencies \<Rightarrow> dependencies_loop ms dependencies
      | None \<Rightarrow> Inr False)"

text \<open>
  One round of the loop of \<^verbatim>\<open>get_ready_sections\<close>: whether the section is appended.
\<close>

definition section_ready :: "json \<Rightarrow> string \<Rightarrow> error + bool" where
  "section_ready ms section_name =
     and_then (contains ms section_name) (\<lambda>present.
     if \<not> present then Inr False
     else and_then (getitem ms section_name) (\<lambda>sec.
     if \<not> is_dict sec then Inr False
     else and_then (contains sec ''status'') (\<lambda>has_status.
     if \<not> has_status then Inr False
     else and_then (getitem sec ''status'') (\<lambda>status.
     if status \<noteq> JStr ''Complete''
     then check_dependencies_complete ms section_name
     else Inr False))))"

fun ready_loop :: "json \<Rightarrow> string list \<Rightarrow> string list \<Rightarrow> error + string list" where
  "ready_loop ms [] ready_sections = Inr ready_sections"
| "ready_loop ms (section_name # rest) ready_sections =
     and_then (section_ready ms section_name) (\<lambda>ready.
     ready_loop ms rest (if ready then ready_sections @ [section_name] else ready_sections))"

definition get_ready_sections :: "json \<Rightarrow> error + string list" where
  "get_ready_sections ms = ready_loop ms (map fst section_dependencies) []"

text \<open>
  \<^verbatim>\<open>log_change\<close>: \<^verbatim>\<open>details or {}\<close> is the empty dict for None and for an empty
  dict.
\<close>

definition ensure_change_history :: "unit action" where
  "ensure_change_history =
     then_do (inspect (\<lambda>ms. contains ms ''changeHistory'')) (\<lambda>present.
     if \<not> present
     then mutate (\<lambda>ms. setitem ms ''changeHistory'' (JList []))
     else then_do (inspect (\<lambda>ms. getitem ms ''changeHistory'')) (\<lambda>history.
          if \<not> is_list history
          then mutate (\<lambda>ms. setitem ms ''changeHistory'' (JList []))
          else returns ()))"

definition change_entry :: "string \<Rightarrow> json \<Rightarrow> (string \<times> json) list option \<Rightarrow> json" where
  "change_entry stamp description details =
     JDict [(''timestamp'', JStr stamp),
            (''description'', description),
            (''details'', (case details of None \<Rightarrow> JDict [] | Some d \<Rightarrow> JDict d))]"

definition log_change :: "json \<Rightarrow> (string \<times> json) list option \<Rightarrow> unit action" where
  "log_change description details =
     then_do now (\<lambda>stamp.
     then_do ensure_change_history (\<lambda>_.
     then_do (mutate (modify_at [''changeHistory'']
                (\<lambda>history. append_item history (change_entry stamp description details)))) (\<lambda>_.
     save_memory_state)))"

section \<open>Markdown projection (exporters.py)\<close>

text \<open>
  The markdown files are opened in text mode. On writing, every line feed becomes
  \<^verbatim>\<open>os.linesep\<close>; on reading, universal newlines turn a carriage return, alone or
  followed by a line feed, into a line feed.
\<close>

abbreviation LF :: char where
  "LF \<equiv> CHR 0x0A"

abbreviation CR :: char where
  "CR \<equiv> CHR 0x0D"

fun write_newlines :: "string \<Rightarrow> string \<Rightarrow> string" where
  "write_newlines sep [] = []"
| "write_newlines sep (c # cs) =
     (if c = LF then sep @ write_newlines sep cs else c # write_newlines sep cs)"

fun universal_newlines :: "string \<Rightarrow> string" where
  "universal_newlines [] = []"
| "universal_newlines [c] = (if c = CR then [LF] else [c])"
| "universal_newlines (c # d # cs) =
     (if c = CR \<and> d = LF then LF # universal_newlines cs
      else if c = CR then LF # universal_newlines (d # cs)
      else c # universal_newlines (d # cs))"

text \<open>
  \<^verbatim>\<open>open(md_file, 'w')\<close> creates the file or empties it. \<^verbatim>\<open>f.write(v)\<close> raises a
  TypeError unless \<open>v\<close> is a str, and a UnicodeEncodeError for a str that the encoding
  cannot represent, with nothing of it written. A file left by a \<^verbatim>\<open>with\<close> block that
  raised keeps what was written before.
\<close>

definition create_file :: "path \<Rightarrow> unit action" where
  "create_file p m = (Inr (), m\<lparr>files := (files m)(p \<mapsto> Text [])\<rparr>)"

definition file_write :: "path \<Rightarrow> json \<Rightarrow> unit action" where
  "file_write p v m =
     (case v of
        JStr s \<Rightarrow>
          if encodable m s
          then (Inr (), m\<lparr>files := (files m)(p \<mapsto>
                  Text ((case files m p of Some (Text old) \<Rightarrow> old | _ \<Rightarrow> [])
                        @ write_newlines (linesep m) s))\<rparr>)
          else (Inl UnicodeEncodeError, m)
      | _ \<Rightarrow> (Inl TypeError, m))"

definition export_mapping :: "(string \<times> string) list" where
  "export_mapping =
     [(''projectInfo'', ''projectbrief.md''),
      (''productContext'', ''productContext.md''),
      (''systemPatterns'', ''systemPatterns.md''),
      (''technologies'', ''techContext.md''),
      (''tasks'', ''activeContext.md'')]"

text \<open>
  The value written to \<^verbatim>\<open>activeContext.md\<close>, when one is written: \<^verbatim>\<open>tasks\<close> is known
  to be a dict here, \<^verbatim>\<open>current\<close> has to be present and a dict.
\<close>

fun active_context_of :: "json \<Rightarrow> json option" where
  "active_context_of (JDict tasks) =
     (case map_of tasks ''current'' of
        Some (JDict current) \<Rightarrow>
          (case map_of current ''activeContext'' of
             None \<Rightarrow> Some (JStr [])
           | Some v \<Rightarrow> Some v)
      | _ \<Rightarrow> None)"
| "active_context_of v = None"

text \<open>
  The text of \<^verbatim>\<open>progress.md\<close>: one heading and body for every history entry that is
  a dict with a \<^verbatim>\<open>progress\<close> key, formatted by the f-string.
\<close>

fun progress_entries :: "(json \<Rightarrow> string) \<Rightarrow> json list \<Rightarrow> string" where
  "progress_entries fmt [] = []"
| "progress_entries fmt (task # rest) =
     (case task of
        JDict t \<Rightarrow>
          (case map_of t ''progress'' of
             Some progress \<Rightarrow>
               ''## '' @ fmt (case map_of t ''description'' of None \<Rightarrow> JStr ''Task'' | Some d \<Rightarrow> d)
                 @ [LF] @ fmt progress @ [LF, LF]
           | None \<Rightarrow> [])
      | _ \<Rightarrow> [])
     @ progress_entries fmt rest"

fun progress_content :: "(json \<Rightarrow> string) \<Rightarrow> json \<Rightarrow> string" where
  "progress_content fmt (JDict tasks) =
     ''# Project Progress'' @ [LF, LF] @
     (case map_of tasks ''history'' of
        Some (JList history) \<Rightarrow> progress_entries fmt history
      | _ \<Rightarrow> [])"
| "progress_content fmt v = ''# Project Progress'' @ [LF, LF]"

definition export_tasks :: "unit action" where
  "export_tasks =
     then_do (\<lambda>m. create_file (Path (memory_path m) ''activeContext.md'') m) (\<lambda>_.
     then_do (inspect (\<lambda>ms. getitem ms ''tasks'')) (\<lambda>tasks.
     then_do (case active_context_of tasks of
                None \<Rightarrow> returns ()
              | Some ctx \<Rightarrow> (\<lambda>m. file_write (Path (memory_path m) ''activeContext.md'') ctx m)) (\<lambda>_.
     then_do (\<lambda>m. create_file (Path (memory_path m) ''progress.md'') m) (\<lambda>_.
     (\<lambda>m. file_write (Path (memory_path m) ''progress.md'')
             (JStr (progress_content (str_of m) tasks)) m)))))"

text \<open>
  The regular section written to its file: the \<^verbatim>\<open>content\<close> when the section has the
  key, the placeholder otherwise.
\<close>

definition export_regular :: "string \<Rightarrow> string \<Rightarrow> json \<Rightarrow> unit action" where
  "export_regular section_name file_name sec =
     then_do (\<lambda>m. create_file (Path (memory_path m) file_name) m) (\<lambda>_.
     then_do (\<lambda>m. (contains sec ''content'', m)) (\<lambda>has_content.
     if has_content
     then then_do (\<lambda>m. (getitem sec ''content'', m)) (\<lambda>content.
          (\<lambda>m. file_write (Path (memory_path m) file_name) content m))
     else (\<lambda>m. file_write (Path (memory_path m) file_name)
                  (JStr (''# '' @ section_name @ [LF, LF] @ ''*No content yet*'')) m)))"

text \<open>What \<^verbatim>\<open>export_markdown\<close> returns: a file, the directory, or None.\<close>

datatype exported = Exported_file path | Exported_dir string | Exported_nothing

text \<open>
  The single-section branch. \<^verbatim>\<open>return md_file\<close> stands inside the \<^verbatim>\<open>else\<close> of the
  \<^verbatim>\<open>tasks\<close> test: the \<^verbatim>\<open>tasks\<close> export falls through to the end of the function and
  returns None, and the regular export returns a variable that only the inner \<^verbatim>\<open>if\<close>
  binds.
\<close>

definition export_section :: "string \<Rightarrow> exported action" where
  "export_section section_name =
     then_do (inspect (\<lambda>ms. contains ms section_name)) (\<lambda>present.
     if present then
       then_do (if section_name = ''tasks''
                then inspect (\<lambda>ms. and_then (getitem ms section_name) (\<lambda>sec. Inr (is_dict sec)))
                else returns False) (\<lambda>tasks_dict.
       if tasks_dict then
         then_do export_tasks (\<lambda>_. returns Exported_nothing)
       else
         (case map_of export_mapping section_name of
            None \<Rightarrow> raises UnboundLocalError
          | Some file_name \<Rightarrow>
              then_do (inspect (\<lambda>ms. getitem ms section_name)) (\<lambda>sec.
              if is_dict sec then
                then_do (export_regular section_name file_name sec) (\<lambda>_.
                (\<lambda>m. returns (Exported_file (Path (memory_path m) file_name)) m))
              else raises UnboundLocalError)))
     else returns Exported_nothing)"

text \<open>The all-sections branch: the loop over the items of the mapping.\<close>

definition export_item :: "string \<Rightarrow> string \<Rightarrow> unit action" where
  "export_item section_name file_name =
     then_do (inspect (\<lambda>ms. contains ms section_name)) (\<lambda>present.
     if present then
       then_do (inspect (\<lambda>ms. getitem ms section_name)) (\<lambda>sec.
       if section_name = ''tasks'' \<and> is_dict sec then export_tasks
       else if is_dict sec then export_regular section_name file_name sec
       else returns ())
     else returns ())"

fun export_all :: "(string \<times> string) list \<Rightarrow> unit action" where
  "export_all [] = returns ()"
| "export_all ((section_name, file_name) # rest) =
     then_do (export_item section_name file_name) (\<lambda>_. export_all rest)"

text \<open>
  \<^verbatim>\<open>export_markdown(memory_manager, section_name=None)\<close>: None and the empty string
  take the all-sections branch.
\<close>

fun export_markdown :: "string option \<Rightarrow> exported action" where
  "export_markdown None =
     then_do (export_all export_mapping) (\<lambda>_. (\<lambda>m. returns (Exported_dir (memory_path m)) m))"
| "export_markdown (Some section_name) =
     (if section_name = []
      then then_do (export_all export_mapping) (\<lambda>_. (\<lambda>m. returns (Exported_dir (memory_path m)) m))
      else export_section section_name)"

definition import_mapping :: "(string \<times> string) list" where
  "import_mapping =
     [(''projectbrief.md'', ''projectInfo''),
      (''productContext.md'', ''productContext''),
      (''systemPatterns.md'', ''systemPatterns''),
      (''techContext.md'', ''technologies''),
      (''activeContext.md'', ''tasks''),
      (''progress.md'', ''tasks'')]"

text \<open>
  \<^verbatim>\<open>for md_file, section in mapping.items(): if section == section_name: ... break\<close>
\<close>

fun derive_file :: "(string \<times> string) list \<Rightarrow> string \<Rightarrow> string option" where
  "derive_file [] section_name = None"
| "derive_file ((md_file, sec) # rest) section_name =
     (if sec = section_name then Some md_file else derive_file rest section_name)"

text \<open>\<^verbatim>\<open>k in v and isinstance(v[k], dict)\<close>\<close>

definition has_dict :: "json \<Rightarrow> string \<Rightarrow> error + bool" where
  "has_dict v k =
     and_then (contains v k) (\<lambda>present.
     if present then and_then (getitem v k) (\<lambda>x. Inr (is_dict x)) else Inr False)"

text \<open>
  The two special files: the text goes into a field of \<^verbatim>\<open>tasks.current\<close>.
\<close>

definition import_into_current :: "string \<Rightarrow> string \<Rightarrow> bool action" where
  "import_into_current field content =
     then_do (inspect (\<lambda>ms. has_dict ms ''tasks'')) (\<lambda>tasks_dict.
     if tasks_dict then
       then_do (inspect (\<lambda>ms. and_then (getitem ms ''tasks'') (\<lambda>tasks. has_dict tasks ''current''))) (\<lambda>current_dict.
       if current_dict then
         then_do (mutate (modify_at [''tasks'', ''current'']
                    (\<lambda>cur. setitem cur field (JStr content)))) (\<lambda>_.
         then_do save_memory_state (\<lambda>_.
         returns True))
       else returns False)
     else returns False)"

definition import_regular :: "string \<Rightarrow> string \<Rightarrow> bool action" where
  "import_regular file_name content =
     (case map_of import_mapping file_name of
        None \<Rightarrow> returns False
      | Some section_name \<Rightarrow>
          then_do (inspect (\<lambda>ms. has_dict ms section_name)) (\<lambda>section_dict.
          if section_dict then
            then_do (mutate (modify_at [section_name]
                       (\<lambda>sec. setitem sec ''content'' (JStr content)))) (\<lambda>_.
            then_do (mutate (modify_at [section_name]
                       (\<lambda>sec. setitem sec ''status'' (JStr ''Complete'')))) (\<lambda>_.
            then_do save_memory_state (\<lambda>_.
            returns True)))
          else returns False))"

text \<open>
  The file that \<^verbatim>\<open>import_markdown\<close> reads: the path given, or the one derived from the
  section name.
\<close>

definition import_path :: "manager \<Rightarrow> string \<Rightarrow> path option \<Rightarrow> path option" where
  "import_path m section_name file_path =
     (case file_path of
        Some p \<Rightarrow> Some p
      | None \<Rightarrow> map_option (Path (memory_path m)) (derive_file import_mapping section_name))"

text \<open>
  \<^verbatim>\<open>import_markdown(memory_manager, section_name, file_path=None)\<close>: no path, a file
  that does not exist and a file that cannot be read (the bare \<^verbatim>\<open>except\<close>) give False.
\<close>

definition import_markdown :: "string \<Rightarrow> path option \<Rightarrow> bool action" where
  "import_markdown section_name file_path m =
     (case import_path m section_name file_path of
        None \<Rightarrow> (Inr False, m)
      | Some p \<Rightarrow>
          (case files m p of
             None \<Rightarrow> (Inr False, m)
           | Some Undecodable \<Rightarrow> (Inr False, m)
           | Some (Text text) \<Rightarrow>
               (let content = universal_newlines text;
                    file_name = path_name p
                in if file_name = ''activeContext.md''
                   then import_into_current ''activeContext'' content m
                   else if file_name = ''progress.md''
                   then import_into_current ''progress'' content m
                   else import_regular file_name content m)))"

section \<open>Properties of a section of the document\<close>

text \<open>
  The section is a key of the document, its value is a dict, and the \<^verbatim>\<open>status\<close> of
  that dict is \<^verbatim>\<open>"Complete"\<close>.
\<close>

fun status_complete :: "json \<Rightarrow> string \<Rightarrow> bool" where
  "status_complete (JDict d) section_name =
     (case map_of d section_name of
        Some (JDict sec) \<Rightarrow> map_of sec ''status'' = Some (JStr ''Complete'')
      | _ \<Rightarrow> False)"
| "status_complete v section_name = False"

text \<open>
  The prerequisite is a key of the document, and when its value is a dict with a
  \<^verbatim>\<open>status\<close> key, that status is \<^verbatim>\<open>"Complete"\<close>.
\<close>

fun prerequisite_passes :: "json \<Rightarrow> string \<Rightarrow> bool" where
  "prerequisite_passes (JDict d) dep =
     (case map_of d dep of
        None \<Rightarrow> False
      | Some (JDict sec) \<Rightarrow>
          (case map_of sec ''status'' of
             None \<Rightarrow> True
           | Some status \<Rightarrow> status = JStr ''Complete'')
      | Some v \<Rightarrow> True)"
| "prerequisite_passes v dep = False"


text \<open>
  What the \<^verbatim>\<open>tasks\<close> branch of \<^verbatim>\<open>update_section\<close> reads in the section without a
  check: a dict \<^verbatim>\<open>current\<close> when the metadata carries \<^verbatim>\<open>activeContext\<close>, a list
  \<^verbatim>\<open>history\<close> when it carries \<^verbatim>\<open>progress\<close>.
\<close>

fun tasks_shape :: "json \<Rightarrow> (string \<times> json) list option \<Rightarrow> bool" where
  "tasks_shape (JDict tasks) metadata =
     ((if carries metadata ''activeContext''
       then (case map_of tasks ''current'' of Some (JDict current) \<Rightarrow> True | _ \<Rightarrow> False)
       else True) \<and>
      (if carries metadata ''progress''
       then (case map_of tasks ''history'' of Some (JList history) \<Rightarrow> True | _ \<Rightarrow> False)
       else True))"
| "tasks_shape v metadata =
     (\<not> carries metadata ''activeContext'' \<and> \<not> carries metadata ''progress'')"

text \<open>
  The section-specific step of \<^verbatim>\<open>update_section\<close> finds what it reads without a check:
  a dict in the \<^verbatim>\<open>projectInfo\<close> and \<^verbatim>\<open>technologies\<close> branches, the fields above in
  the \<^verbatim>\<open>tasks\<close> branch. The generic branch checks for a dict itself.
\<close>

definition writable_section :: "string \<Rightarrow> json \<Rightarrow> (string \<times> json) list option \<Rightarrow> bool" where
  "writable_section section_name v metadata =
     (if section_name = ''projectInfo'' \<or> section_name = ''technologies'' then is_dict v
      else if section_name = ''tasks'' then tasks_shape v metadata
      else True)"

section \<open>The change history of a document\<close>

text \<open>
  The entries of \<^verbatim>\<open>changeHistory\<close>: none when the key is absent or its value is not
  a list.
\<close>

fun change_history :: "json \<Rightarrow> json list" where
  "change_history (JDict d) =
     (case map_of d ''changeHistory'' of
        Some (JList entries) \<Rightarrow> entries
      | _ \<Rightarrow> [])"
| "change_history v = []"

section \<open>What an import needs\<close>

text \<open>
  Whether \<^verbatim>\<open>import_markdown\<close> finds a dict to write the text of the file into:
  \<^verbatim>\<open>tasks.current\<close> for the two special files, the section of the mapping for the
  others.
\<close>

fun import_target :: "json \<Rightarrow> string \<Rightarrow> bool" where
  "import_target (JDict d) file_name =
     (if file_name = ''activeContext.md'' \<or> file_name = ''progress.md''
      then (case map_of d ''tasks'' of
              Some (JDict tasks) \<Rightarrow>
                (case map_of tasks ''current'' of Some (JDict current) \<Rightarrow> True | _ \<Rightarrow> False)
            | _ \<Rightarrow> False)
      else (case map_of import_mapping file_name of
              Some section_name \<Rightarrow>
                (case map_of d section_name of Some (JDict sec) \<Rightarrow> True | _ \<Rightarrow> False)
            | None \<Rightarrow> False))"
| "import_target v file_name = False"

text \<open>
  Whether \<^verbatim>\<open>import_markdown\<close> reaches a write: the file it resolves exists, can be
  read, and has a dict to be written into.
\<close>

definition import_writes :: "manager \<Rightarrow> string \<Rightarrow> path option \<Rightarrow> bool" where
  "import_writes m section_name file_path =
     (case import_path m section_name file_path of
        None \<Rightarrow> False
      | Some p \<Rightarrow>
          (case files m p of
             Some (Text text) \<Rightarrow> import_target (memory_state m) (path_name p)
           | _ \<Rightarrow> False))"

section \<open>A manager to evaluate the operations on\<close>

text \<open>
  The manager as the constructor leaves it before \<^verbatim>\<open>init_memory_bank\<close>, on a project
  root that has no memory bank yet, on a POSIX system whose text files are ASCII.
\<close>

definition new_manager :: manager where
  "new_manager =
     \<lparr>project_root = ''demo'',
      memory_path = ''demo/memory-bank'',
      memory_state = JDict [],
      state_file = Missing,
      backup_file = Missing,
      files = (\<lambda>p. None),
      clock = (\<lambda>n. ''2025-01-01T00:00:00.'' @ replicate n (CHR ''0'')),
      ticks = 0,
      linesep = [LF],
      encodable = list_all (\<lambda>c. of_char c < (128 :: nat)),
      str_of = (\<lambda>v. [])\<rparr>"

section \<open>Basic facts about the Python operations\<close>

lemma and_then_Inl [simp]: "and_then (Inl e) f = Inl e"
  by (simp add: and_then_def)

lemma and_then_Inr [simp]: "and_then (Inr x) f = f x"
  by (simp add: and_then_def)

lemma and_then_eq_Inr: "and_then r f = Inr y \<longleftrightarrow> (\<exists>x. r = Inr x \<and> f x = Inr y)"
  by (cases r) auto

lemma is_dict_iff: "is_dict v \<longleftrightarrow> (\<exists>d. v = JDict d)"
  by (cases v) auto

lemma getitem_eq_Inr: "getitem v k = Inr x \<longleftrightarrow> (\<exists>d. v = JDict d \<and> map_of d k = Some x)"
  by (cases v) (auto split: option.splits)

section \<open>Loading and initialising the state\<close>

lemma unparsable_never_loads:
  "state_file m = Unparsable \<Longrightarrow>
     load_memory_state depth m = (Inl RecursionError, m) \<and>
     init_memory_bank depth m = (Inl RecursionError, m)"
  by (induction depth) simp_all

lemma missing_is_initialised:
  "state_file m = Missing \<Longrightarrow>
     load_memory_state (Suc (Suc (Suc depth))) m =
       (Inr (), (write_initial_state m)
          \<lparr>memory_state :=
             initial_state (project_root m) (clock m (ticks m)) (clock m (Suc (ticks m)))\<rparr>)"
  by (simp add: write_initial_state_def Let_def)

lemma parsed_is_loaded_as_it_is:
  "state_file m = Holds v \<Longrightarrow>
     load_memory_state (Suc depth) m = (Inr (), m\<lparr>memory_state := v\<rparr>)"
  by simp

text \<open>
  C1. Reloading a persisted state that fails to parse should fall back to the default
  document without raising. On a state file that exists and does not parse,
  \<^verbatim>\<open>load_memory_state\<close> calls \<^verbatim>\<open>init_memory_bank\<close>, which writes the defaults only when
  the file does not exist and calls \<^verbatim>\<open>load_memory_state\<close> again: whatever the recursion
  limit, the call ends in a RecursionError, with the memory state and the file untouched.
\<close>

theorem reload_unparsable_raises:
  "state_file m = Unparsable \<Longrightarrow> load_memory_state depth m = (Inl RecursionError, m)"
  using unparsable_never_loads by blast

theorem reload_unparsable_raises_witness:
  "load_memory_state 1000 (new_manager\<lparr>state_file := Unparsable\<rparr>) =
     (Inl RecursionError, new_manager\<lparr>state_file := Unparsable\<rparr>)"
  using reload_unparsable_raises [of "new_manager\<lparr>state_file := Unparsable\<rparr>" 1000]
  by simp

section \<open>Ready sections\<close>

lemma ready_sections_of_initial_state:
  "get_ready_sections (initial_state root_name created updated) = Inr [''projectInfo'']"
  by (simp add: get_ready_sections_def section_dependencies_def initial_state_def
      section_ready_def check_dependencies_complete_def and_then_def)

text \<open>
  C4. Opening a manager on a fresh root (no state file; at least the two call frames of
  \<^verbatim>\<open>init_memory_bank\<close> and \<^verbatim>\<open>load_memory_state\<close> available) succeeds, leaves the
  default document in memory, and the ready sections of that document are exactly
  \<^verbatim>\<open>["projectInfo"]\<close>.
\<close>

theorem open_fresh_root_ready_sections:
  "state_file m = Missing \<Longrightarrow>
     fst (open_manager (Suc (Suc depth)) m) = Inr () \<and>
     memory_state (snd (open_manager (Suc (Suc depth)) m)) =
       initial_state (project_root m) (clock m (ticks m)) (clock m (Suc (ticks m))) \<and>
     get_ready_sections (memory_state (snd (open_manager (Suc (Suc depth)) m))) =
       Inr [''projectInfo'']"
  by (simp add: open_manager_def write_initial_state_def Let_def
      ready_sections_of_initial_state)

theorem open_fresh_root_ready_sections_witness:
  "fst (open_manager (Suc (Suc 0)) new_manager) = Inr () \<and>
   memory_state (snd (open_manager (Suc (Suc 0)) new_manager)) =
     initial_state (project_root new_manager)
       (clock new_manager (ticks new_manager)) (clock new_manager (Suc (ticks new_manager))) \<and>
   get_ready_sections (memory_state (snd (open_manager (Suc (Suc 0)) new_manager))) =
     Inr [''projectInfo'']"
  by (rule open_fresh_root_ready_sections) (simp add: new_manager_def)

lemma dependencies_loop_passes:
  "dependencies_loop ms deps = Inr True \<Longrightarrow> dep \<in> set deps \<Longrightarrow> prerequisite_passes ms dep"
proof (induction deps)
  case Nil
  then show ?case by simp
next
  case (Cons a deps)
  from Cons.prems(1) obtain present where
    p: "contains ms a = Inr present" and
    rest: "(if \<not> present then Inr False
      else and_then (getitem ms a) (\<lambda>sec.
        if \<not> is_dict sec then dependencies_loop ms deps
        else and_then (contains sec ''status'') (\<lambda>has_status.
        if \<not> has_status then dependencies_loop ms deps
        else and_then (getitem sec ''status'') (\<lambda>status.
        if status \<noteq> JStr ''Complete'' then Inr False
        else dependencies_loop ms deps)))) = Inr True"
    by (auto simp add: and_then_eq_Inr)
  from rest have present by (auto split: if_splits)
  with rest obtain sec where
    g: "getitem ms a = Inr sec" and
    rest2: "(if \<not> is_dict sec then dependencies_loop ms deps
        else and_then (contains sec ''status'') (\<lambda>has_status.
        if \<not> has_status then dependencies_loop ms deps
        else and_then (getitem sec ''status'') (\<lambda>status.
        if status \<noteq> JStr ''Complete'' then Inr False
        else dependencies_loop ms deps))) = Inr True"
    by (auto simp add: and_then_eq_Inr)
  from g obtain d where ms: "ms = JDict d" and a: "map_of d a = Some sec"
    by (auto simp add: getitem_eq_Inr)
  have here: "prerequisite_passes ms a" and tail: "dependencies_loop ms deps = Inr True"
    using rest2 ms a
    by (cases sec; auto simp add: and_then_eq_Inr split: if_splits option.splits)+
  from Cons.prems(2) have "dep = a \<or> dep \<in> set deps" by auto
  then show ?case
    using here Cons.IH [OF tail] by auto
qed

lemma section_ready_dependencies:
  "section_ready ms n = Inr True \<Longrightarrow> check_dependencies_complete ms n = Inr True"
  unfolding section_ready_def
  by (auto simp add: and_then_eq_Inr split: if_splits)

lemma ready_loop_members:
  "ready_loop ms ns acc = Inr ready \<Longrightarrow> x \<in> set ready \<Longrightarrow>
     x \<in> set acc \<or> section_ready ms x = Inr True"
proof (induction ns arbitrary: acc)
  case Nil
  then show ?case by simp
next
  case (Cons n ns)
  from Cons.prems(1) obtain b where
    b: "section_ready ms n = Inr b" and
    rest: "ready_loop ms ns (if b then acc @ [n] else acc) = Inr ready"
    by (auto simp add: and_then_eq_Inr)
  from Cons.IH [OF rest Cons.prems(2)] b show ?case
    by (auto split: if_splits)
qed

text \<open>
  C2. Every section that \<^verbatim>\<open>get_ready_sections\<close> returns has each prerequisite of the
  dependency table present in the document, and each prerequisite that is a dict with a
  \<^verbatim>\<open>status\<close> key has the status \<^verbatim>\<open>"Complete"\<close>. A prerequisite that is not a dict,
  or has no \<^verbatim>\<open>status\<close> key, is skipped by \<^verbatim>\<open>check_dependencies_complete\<close>: the
  counterexample has a ready section whose prerequisite is a string.
\<close>

theorem ready_sections_prerequisites_pass:
  "get_ready_sections ms = Inr ready \<Longrightarrow> section_name \<in> set ready \<Longrightarrow>
   map_of section_dependencies section_name = Some deps \<Longrightarrow> dep \<in> set deps \<Longrightarrow>
     prerequisite_passes ms dep"
proof -
  assume r: "get_ready_sections ms = Inr ready" and x: "section_name \<in> set ready"
    and t: "map_of section_dependencies section_name = Some deps" and d: "dep \<in> set deps"
  from r x have "section_ready ms section_name = Inr True"
    using ready_loop_members [of ms _ "[]" ready section_name]
    by (simp add: get_ready_sections_def)
  then have "check_dependencies_complete ms section_name = Inr True"
    by (rule section_ready_dependencies)
  with t have "dependencies_loop ms deps = Inr True"
    by (simp add: check_dependencies_complete_def)
  then show ?thesis using d by (rule dependencies_loop_passes)
qed

theorem ready_sections_prerequisites_pass_witness:
  "prerequisite_passes
     (JDict [(''projectInfo'', JDict [(''status'', JStr ''Complete'')]),
             (''productContext'', JDict [(''content'', JStr ''''), (''status'', JStr ''Pending'')])])
     ''projectInfo''"
proof (rule ready_sections_prerequisites_pass)
  show "get_ready_sections
     (JDict [(''projectInfo'', JDict [(''status'', JStr ''Complete'')]),
             (''productContext'', JDict [(''content'', JStr ''''), (''status'', JStr ''Pending'')])]) =
     Inr [''productContext'']"
    by (simp add: get_ready_sections_def section_dependencies_def
      section_ready_def check_dependencies_complete_def)
  show "''productContext'' \<in> set [''productContext'']" by simp
  show "map_of section_dependencies ''productContext'' = Some [''projectInfo'']"
    by (simp add: section_dependencies_def)
  show "''projectInfo'' \<in> set [''projectInfo'']" by simp
qed

theorem ready_sections_prerequisite_counterexample:
  "get_ready_sections
     (JDict [(''projectInfo'', JStr ''notes''),
             (''productContext'', JDict [(''content'', JStr ''''), (''status'', JStr ''Pending'')])]) =
     Inr [''productContext''] \<and>
   map_of section_dependencies ''productContext'' = Some [''projectInfo''] \<and>
   \<not> status_complete
     (JDict [(''projectInfo'', JStr ''notes''),
             (''productContext'', JDict [(''content'', JStr ''''), (''status'', JStr ''Pending'')])])
     ''projectInfo''"
  by (simp add: get_ready_sections_def section_dependencies_def
      section_ready_def check_dependencies_complete_def)

section \<open>Persisting the state\<close>

lemma save_memory_state_ok:
  assumes "memory_state m = JDict d" and "map_of d ''metadata'' = Some (JDict meta)"
  shows "save_memory_state m =
    (Inr (),
     m\<lparr>ticks := Suc (ticks m),
       memory_state := JDict (AList.update ''metadata''
          (JDict (AList.update ''lastUpdated'' (JStr (clock m (ticks m))) meta)) d),
       backup_file := (if state_file m \<noteq> Missing then state_file m else backup_file m),
       state_file := Holds (JDict (AList.update ''metadata''
          (JDict (AList.update ''lastUpdated'' (JStr (clock m (ticks m))) meta)) d))\<rparr>)"
  using assms
  by (simp add: save_memory_state_def then_do_def now_def mutate_def write_state_file_def Let_def)

lemma save_memory_state_no_metadata:
  assumes "memory_state m = JDict d" and "map_of d ''metadata'' = None"
  shows "save_memory_state m = (Inl KeyError, m\<lparr>ticks := Suc (ticks m)\<rparr>)"
  using assms
  by (simp add: save_memory_state_def then_do_def now_def mutate_def)

lemma save_keeps_section:
  assumes "memory_state m = JDict d" and "name \<noteq> ''metadata''"
  shows "\<exists>d'. memory_state (snd (save_memory_state m)) = JDict d' \<and>
    map_of d' name = map_of d name"
proof (cases "map_of d ''metadata''")
  case None
  then show ?thesis
    using assms by (simp add: save_memory_state_def then_do_def now_def mutate_def)
next
  case (Some v)
  show ?thesis
  proof (cases v)
    case (JDict meta)
    then show ?thesis
      using assms Some
      by (simp add: save_memory_state_def then_do_def now_def mutate_def write_state_file_def
          Let_def update_conv')
  qed (use assms Some in \<open>simp_all add: save_memory_state_def then_do_def now_def mutate_def\<close>)
qed

section \<open>Updating a section\<close>

text \<open>One assignment \<^verbatim>\<open>memory_state[name][k] = v\<close> on a section that is a dict.\<close>

lemma assign_in_section:
  assumes "memory_state m = JDict d" and "map_of d name = Some (JDict sec)"
  shows "mutate (modify_at [name] (\<lambda>s. setitem s k v)) m =
    (Inr (), m\<lparr>memory_state := JDict (AList.update name (JDict (AList.update k v sec)) d)\<rparr>)"
  using assms by (simp add: mutate_def)

lemma overlay_frame:
  assumes "memory_state m = JDict d" and "map_of d name = Some (JDict sec)"
  shows "\<exists>m' d' sec'. overlay name md m = (Inr (), m') \<and> memory_state m' = JDict d' \<and>
    map_of d' = (map_of d)(name \<mapsto> JDict sec') \<and> dom (map_of sec) \<subseteq> dom (map_of sec')"
  using assms
proof (induction md arbitrary: m d sec)
  case Nil
  then show ?case
    by (auto simp add: returns_def intro!: exI [of _ d] exI [of _ sec])
next
  case (Cons kv md)
  obtain k v where kv: "kv = (k, v)" by (cases kv)
  let ?d1 = "AList.update name (JDict (AList.update k v sec)) d"
  let ?m1 = "m\<lparr>memory_state := JDict ?d1\<rparr>"
  have step: "mutate (modify_at [name] (\<lambda>s. setitem s k v)) m = (Inr (), ?m1)"
    by (rule assign_in_section [OF Cons.prems])
  have "memory_state ?m1 = JDict ?d1" by simp
  moreover have "map_of ?d1 name = Some (JDict (AList.update k v sec))"
    by (simp add: update_conv')
  ultimately obtain m' d' sec' where
    r: "overlay name md ?m1 = (Inr (), m')" "memory_state m' = JDict d'"
      "map_of d' = (map_of ?d1)(name \<mapsto> JDict sec')"
      "dom (map_of (AList.update k v sec)) \<subseteq> dom (map_of sec')"
    using Cons.IH by blast
  have "overlay name (kv # md) m = (Inr (), m')"
    using step r(1) by (simp add: kv then_do_def)
  moreover have "map_of d' = (map_of d)(name \<mapsto> JDict sec')"
    using r(3) by (simp add: update_conv')
  moreover have "dom (map_of sec) \<subseteq> dom (map_of sec')"
    using r(4) by (auto simp add: update_conv')
  ultimately show ?case using r(2) by blast
qed

lemma write_active_context_frame:
  assumes "memory_state m = JDict d" and "map_of d ''tasks'' = Some (JDict sec)"
    and "tasks_shape (JDict sec) metadata"
  shows "\<exists>m' d' sec'. write_active_context ''tasks'' metadata m = (Inr (), m') \<and>
    memory_state m' = JDict d' \<and>
    map_of d' = (map_of d)(''tasks'' \<mapsto> JDict sec') \<and> dom (map_of sec) \<subseteq> dom (map_of sec') \<and>
    tasks_shape (JDict sec') metadata"
proof (cases "carries metadata ''activeContext''")
  case False
  then show ?thesis
    using assms
    by (auto simp add: write_active_context_def returns_def intro!: exI [of _ d] exI [of _ sec])
next
  case True
  then obtain md ctx where md: "metadata = Some md" "map_of md ''activeContext'' = Some ctx"
    by (cases metadata) auto
  from True assms(3) obtain cur where cur: "map_of sec ''current'' = Some (JDict cur)"
    by (auto split: option.splits json.splits)
  let ?sec' = "AList.update ''current'' (JDict (AList.update ''activeContext'' ctx cur)) sec"
  let ?d' = "AList.update ''tasks'' (JDict ?sec') d"
  have "write_active_context ''tasks'' metadata m = (Inr (), m\<lparr>memory_state := JDict ?d'\<rparr>)"
    using True md assms(1,2) cur
    by (simp add: write_active_context_def then_do_def mutate_def)
  moreover have "tasks_shape (JDict ?sec') metadata"
    using assms(3) by (auto simp add: update_conv' split: option.splits json.splits)
  ultimately show ?thesis
    by (auto simp add: update_conv' intro!: exI [of _ ?d'] exI [of _ ?sec'])
qed

lemma log_progress_frame:
  assumes "memory_state m = JDict d" and "map_of d ''tasks'' = Some (JDict sec)"
    and "tasks_shape (JDict sec) metadata"
  shows "\<exists>m' d' sec'. log_progress ''tasks'' metadata m = (Inr (), m') \<and>
    memory_state m' = JDict d' \<and>
    map_of d' = (map_of d)(''tasks'' \<mapsto> JDict sec') \<and> dom (map_of sec) \<subseteq> dom (map_of sec')"
proof (cases "carries metadata ''progress''")
  case False
  then show ?thesis
    using assms
    by (auto simp add: log_progress_def returns_def intro!: exI [of _ d] exI [of _ sec])
next
  case True
  then obtain md p where md: "metadata = Some md" "map_of md ''progress'' = Some p"
    by (cases metadata) auto
  from True assms(3) obtain h where h: "map_of sec ''history'' = Some (JList h)"
    by (auto split: option.splits json.splits)
  obtain desc where desc: "metadata_get metadata ''description'' (JStr ''Task completed'') = Inr desc"
    using md by (cases "map_of md ''description''") auto
  let ?task = "JDict [(''timestamp'', JStr (clock m (ticks m))), (''description'', desc),
                        (''progress'', p), (''status'', JStr ''Completed'')]"
  let ?sec' = "AList.update ''history'' (JList (h @ [?task])) sec"
  let ?d' = "AList.update ''tasks'' (JDict ?sec') d"
  have "log_progress ''tasks'' metadata m =
      (Inr (), m\<lparr>ticks := Suc (ticks m), memory_state := JDict ?d'\<rparr>)"
    using True md assms(1,2) h desc
    by (simp add: log_progress_def then_do_def mutate_def now_def)
  then show ?thesis
    by (auto simp add: update_conv' intro!: exI [of _ ?d'] exI [of _ ?sec'])
qed

lemma write_section_frame:
  assumes "memory_state m = JDict d" and "map_of d name = Some (JDict sec)"
    and "writable_section name (JDict sec) metadata"
  shows "\<exists>m' d' sec'. write_section name content metadata m = (Inr (), m') \<and>
    memory_state m' = JDict d' \<and>
    map_of d' = (map_of d)(name \<mapsto> JDict sec') \<and> dom (map_of sec) \<subseteq> dom (map_of sec')"
proof -
  let ?sec1 = "AList.update ''content'' content sec"
  let ?d1 = "AList.update name (JDict ?sec1) d"
  let ?m1 = "m\<lparr>memory_state := JDict ?d1\<rparr>"
  have set_content:
    "mutate (modify_at [name] (\<lambda>s. setitem s ''content'' content)) m = (Inr (), ?m1)"
    by (rule assign_in_section [OF assms(1,2)])
  have m1: "memory_state ?m1 = JDict ?d1" "map_of ?d1 name = Some (JDict ?sec1)"
    by (simp_all add: update_conv')
  have direct: "\<exists>d' sec'. memory_state ?m1 = JDict d' \<and>
      map_of d' = (map_of d)(name \<mapsto> JDict sec') \<and> dom (map_of sec) \<subseteq> dom (map_of sec')"
    by (auto simp add: update_conv' intro!: exI [of _ ?d1] exI [of _ ?sec1])
  consider (info) "name = ''projectInfo''" | (tech) "name = ''technologies''"
    | (tasks) "name = ''tasks''"
    | (other) "name \<noteq> ''projectInfo''" "name \<noteq> ''technologies''" "name \<noteq> ''tasks''"
    by blast
  then show ?thesis
  proof cases
    case info
    show ?thesis
    proof (cases metadata)
      case None
      then have "write_section name content metadata m = (Inr (), ?m1)"
        using info set_content by (simp add: write_section_def then_do_def returns_def)
      then show ?thesis using direct by blast
    next
      case (Some md)
      from overlay_frame [OF m1] obtain m' d' sec' where
        r: "overlay name md ?m1 = (Inr (), m')" "memory_state m' = JDict d'"
          "map_of d' = (map_of ?d1)(name \<mapsto> JDict sec')"
          "dom (map_of ?sec1) \<subseteq> dom (map_of sec')"
        by blast
      have "write_section name content metadata m = (Inr (), m')"
        using info Some set_content r(1) by (simp add: write_section_def then_do_def)
      moreover have "map_of d' = (map_of d)(name \<mapsto> JDict sec')"
        using r(3) by (simp add: update_conv')
      moreover have "dom (map_of sec) \<subseteq> dom (map_of sec')"
        using r(4) by (auto simp add: update_conv')
      ultimately show ?thesis using r(2) by blast
    qed
  next
    case tech
    then have "write_section name content metadata m = (Inr (), ?m1)"
      using set_content by (simp add: write_section_def)
    then show ?thesis using direct by blast
  next
    case tasks
    have shape: "tasks_shape (JDict sec) metadata"
      using assms(3) tasks by (simp add: writable_section_def)
    from write_active_context_frame [OF assms(1) assms(2) [unfolded tasks] shape]
    obtain m1 d1 sec1 where
      a: "write_active_context ''tasks'' metadata m = (Inr (), m1)" "memory_state m1 = JDict d1"
        "map_of d1 = (map_of d)(''tasks'' \<mapsto> JDict sec1)" "dom (map_of sec) \<subseteq> dom (map_of sec1)"
        "tasks_shape (JDict sec1) metadata"
      by blast
    have "map_of d1 ''tasks'' = Some (JDict sec1)" using a(3) by simp
    from log_progress_frame [OF a(2) this a(5)]
    obtain m2 d2 sec2 where
      b: "log_progress ''tasks'' metadata m1 = (Inr (), m2)" "memory_state m2 = JDict d2"
        "map_of d2 = (map_of d1)(''tasks'' \<mapsto> JDict sec2)" "dom (map_of sec1) \<subseteq> dom (map_of sec2)"
      by blast
    have "write_section name content metadata m = (Inr (), m2)"
      using tasks a(1) b(1) by (simp add: write_section_def then_do_def)
    moreover have "map_of d2 = (map_of d)(name \<mapsto> JDict sec2)"
      using a(3) b(3) tasks by simp
    moreover have "dom (map_of sec) \<subseteq> dom (map_of sec2)"
      using a(4) b(4) by blast
    ultimately show ?thesis using b(2) by blast
  next
    case other
    then have "write_section name content metadata m = (Inr (), ?m1)"
      using set_content assms(1,2)
      by (simp add: write_section_def then_do_def inspect_def)
    then show ?thesis using direct by blast
  qed
qed

lemma write_section_skip:
  assumes "memory_state m = JDict d" and "map_of d name = Some v" and "\<not> is_dict v"
    and "writable_section name v metadata"
  shows "write_section name content metadata m = (Inr (), m)"
proof -
  have "name \<noteq> ''projectInfo''" "name \<noteq> ''technologies''"
    using assms(3,4) by (auto simp add: writable_section_def)
  moreover have "\<not> carries metadata ''activeContext'' \<and> \<not> carries metadata ''progress''"
    if "name = ''tasks''"
    using assms(3,4) that by (cases v) (auto simp add: writable_section_def)
  ultimately show ?thesis
    using assms(1,2,3)
    by (auto simp add: write_section_def then_do_def inspect_def returns_def
        write_active_context_def log_progress_def)
qed

lemma mark_complete_frame:
  assumes "memory_state m = JDict d" and "map_of d name = Some (JDict sec)"
  shows "\<exists>m' d' sec'. mark_complete name m = (Inr (), m') \<and>
    memory_state m' = JDict d' \<and>
    map_of d' = (map_of d)(name \<mapsto> JDict sec') \<and>
    (map_of sec ''status'' \<noteq> None \<longrightarrow> map_of sec' ''status'' = Some (JStr ''Complete''))"
proof (cases "map_of sec ''status''")
  case None
  then have "mark_complete name m = (Inr (), m)"
    using assms by (simp add: mark_complete_def then_do_def inspect_def returns_def)
  then show ?thesis
    using assms None by (auto intro!: exI [of _ d] exI [of _ sec])
next
  case (Some st)
  let ?sec' = "AList.update ''status'' (JStr ''Complete'') sec"
  let ?d' = "AList.update name (JDict ?sec') d"
  have "mark_complete name m = (Inr (), m\<lparr>memory_state := JDict ?d'\<rparr>)"
    using assms Some
    by (simp add: mark_complete_def then_do_def inspect_def mutate_def)
  then show ?thesis
    by (auto simp add: update_conv' intro!: exI [of _ ?d'] exI [of _ ?sec'])
qed

lemma mark_complete_skip:
  assumes "memory_state m = JDict d" and "map_of d name = Some v" and "\<not> is_dict v"
  shows "mark_complete name m = (Inr (), m)"
  using assms by (simp add: mark_complete_def then_do_def inspect_def returns_def)

text \<open>
  C5. When the section name is not a key of the document, \<^verbatim>\<open>update_section\<close> returns
  False and leaves the manager as it was: the memory state, the state file and the
  backup are the same, whatever the content and the metadata.
\<close>

theorem update_unknown_section:
  "memory_state m = JDict d \<Longrightarrow> map_of d section_name = None \<Longrightarrow>
     update_section section_name content metadata m = (Inr False, m)"
  by (simp add: update_section_def then_do_def inspect_def returns_def)

theorem update_unknown_section_witness:
  "update_section ''doesNotExist'' (JStr ''text'') (Some [(''name'', JStr ''n'')])
     (new_manager\<lparr>memory_state := initial_state ''demo'' ''t0'' ''t1''\<rparr>) =
   (Inr False, new_manager\<lparr>memory_state := initial_state ''demo'' ''t0'' ''t1''\<rparr>)"
proof -
  obtain d where doc: "initial_state ''demo'' ''t0'' ''t1'' = JDict d"
    and key: "map_of d ''doesNotExist'' = None"
    by (simp add: initial_state_def)
  have "memory_state (new_manager\<lparr>memory_state := initial_state ''demo'' ''t0'' ''t1''\<rparr>) = JDict d"
    using doc by simp
  from update_unknown_section [OF this key] show ?thesis .
qed

text \<open>
  C3. On a document that is a dict whose \<^verbatim>\<open>metadata\<close> is a dict, for every section that
  is a dict with a \<^verbatim>\<open>status\<close> key and in which the section-specific step finds what it
  reads (\<open>writable_section\<close>: only the \<^verbatim>\<open>tasks\<close> branch asks for more than a dict),
  \<^verbatim>\<open>update_section\<close> returns True and leaves the status of the section
  \<^verbatim>\<open>"Complete"\<close>, whatever it was before, whatever the content and the metadata.
  Without a \<^verbatim>\<open>metadata\<close> dict the status is set in memory and \<^verbatim>\<open>save_memory_state\<close>
  raises instead of the call returning True: the counterexample.
\<close>

theorem update_section_marks_complete:
  assumes "memory_state m = JDict d"
    and "map_of d ''metadata'' = Some (JDict meta)"
    and "map_of d section_name = Some (JDict sec)"
    and "map_of sec ''status'' \<noteq> None"
    and "writable_section section_name (JDict sec) metadata"
  shows "fst (update_section section_name content metadata m) = Inr True \<and>
    status_complete (memory_state (snd (update_section section_name content metadata m)))
      section_name"
proof -
  from write_section_frame [OF assms(1,3,5)] obtain m1 d1 sec1 where
    w: "write_section section_name content metadata m = (Inr (), m1)" "memory_state m1 = JDict d1"
      "map_of d1 = (map_of d)(section_name \<mapsto> JDict sec1)" "dom (map_of sec) \<subseteq> dom (map_of sec1)"
    by blast
  have s1: "map_of d1 section_name = Some (JDict sec1)" using w(3) by simp
  have st1: "map_of sec1 ''status'' \<noteq> None" using w(4) assms(4) by blast
  from mark_complete_frame [OF w(2) s1] st1 obtain m2 d2 sec2 where
    c: "mark_complete section_name m1 = (Inr (), m2)" "memory_state m2 = JDict d2"
      "map_of d2 = (map_of d1)(section_name \<mapsto> JDict sec2)"
      "map_of sec2 ''status'' = Some (JStr ''Complete'')"
    by blast
  have s2: "map_of d2 section_name = Some (JDict sec2)" using c(3) by simp
  obtain meta2 where meta2: "map_of d2 ''metadata'' = Some (JDict meta2)"
    "section_name = ''metadata'' \<Longrightarrow> meta2 = sec2"
    using c(3) w(3) assms(2) by (cases "section_name = ''metadata''") auto
  note sv = save_memory_state_ok [OF c(2) meta2(1)]
  have "contains (memory_state m) section_name = Inr True"
    using assms(1,3) by simp
  then have "update_section section_name content metadata m =
      (Inr True, snd (save_memory_state m2))"
    using w(1) c(1) sv
    by (simp add: update_section_def then_do_def inspect_def returns_def)
  moreover have "status_complete (memory_state (snd (save_memory_state m2))) section_name"
    using sv s2 c(4) meta2(2)
    by (cases "section_name = ''metadata''") (auto simp add: update_conv')
  ultimately show ?thesis by simp
qed

theorem update_section_marks_complete_witness:
  "fst (update_section ''projectInfo'' (JStr ''brief'') (Some [(''name'', JStr ''demo'')])
     (new_manager\<lparr>memory_state := initial_state ''demo'' ''t0'' ''t1''\<rparr>)) = Inr True \<and>
   status_complete
     (memory_state (snd (update_section ''projectInfo'' (JStr ''brief'') (Some [(''name'', JStr ''demo'')])
        (new_manager\<lparr>memory_state := initial_state ''demo'' ''t0'' ''t1''\<rparr>))))
     ''projectInfo''"
proof -
  obtain d meta sec where doc: "initial_state ''demo'' ''t0'' ''t1'' = JDict d"
    and meta: "map_of d ''metadata'' = Some (JDict meta)"
    and sec: "map_of d ''projectInfo'' = Some (JDict sec)"
    and status: "map_of sec ''status'' \<noteq> None"
    by (simp add: initial_state_def)
  have ms: "memory_state (new_manager\<lparr>memory_state := initial_state ''demo'' ''t0'' ''t1''\<rparr>) = JDict d"
    using doc by simp
  have shape: "writable_section ''projectInfo'' (JDict sec) (Some [(''name'', JStr ''demo'')])"
    by (simp add: writable_section_def)
  from update_section_marks_complete [OF ms meta sec status shape] show ?thesis .
qed

theorem update_section_counterexample:
  "fst (update_section ''projectInfo'' (JStr ''brief'') None
     (new_manager\<lparr>memory_state := JDict [(''projectInfo'', JDict [(''status'', JStr ''Pending'')])]\<rparr>)) =
   Inl KeyError"
  by (simp add: update_section_def then_do_def inspect_def returns_def mutate_def
      write_section_def mark_complete_def save_memory_state_def now_def)

lemma update_generic_malformed_section:
  assumes "memory_state m = JDict d" and "map_of d ''metadata'' = Some (JDict meta)"
    and "map_of d section_name = Some v" and "\<not> is_dict v"
    and "section_name \<noteq> ''projectInfo''" and "section_name \<noteq> ''technologies''"
    and "section_name \<noteq> ''tasks''"
  shows "fst (update_section section_name content metadata m) = Inr True \<and>
    getitem (memory_state (snd (update_section section_name content metadata m))) section_name =
      Inr v"
proof -
  have present: "contains (memory_state m) section_name = Inr True"
    using assms(1,3) by simp
  have "writable_section section_name v metadata"
    using assms(5,6,7) by (simp add: writable_section_def)
  note w = write_section_skip [OF assms(1,3,4) this]
  note c = mark_complete_skip [OF assms(1,3,4)]
  note sv = save_memory_state_ok [OF assms(1,2)]
  have "section_name \<noteq> ''metadata''" using assms(2,3,4) by auto
  then show ?thesis
    using present w c sv assms(3)
    by (simp add: update_section_def then_do_def inspect_def returns_def update_conv')
qed

text \<open>
  C6. A section of malformed shape should make the affected step of \<^verbatim>\<open>update_section\<close>
  a no-op, the call still returning True. The generic branch does so
  (\<open>update_generic_malformed_section\<close>), the three other branches read the section
  without a check. On documents with a well-formed \<^verbatim>\<open>metadata\<close>: a \<^verbatim>\<open>technologies\<close>
  that is a string and a \<^verbatim>\<open>projectInfo\<close> that is a list raise TypeError, a \<^verbatim>\<open>tasks\<close>
  without \<^verbatim>\<open>current\<close> raises KeyError when the metadata carries \<^verbatim>\<open>activeContext\<close>,
  and a \<^verbatim>\<open>tasks\<close> whose \<^verbatim>\<open>history\<close> is a string raises AttributeError when the
  metadata carries \<^verbatim>\<open>progress\<close>.
\<close>

theorem update_malformed_section_raises:
  "fst (update_section ''technologies'' (JStr ''stack'') None
     (new_manager\<lparr>memory_state :=
        JDict [(''metadata'', JDict [(''lastUpdated'', JStr ''t0'')]),
               (''technologies'', JStr ''notes'')]\<rparr>)) = Inl TypeError \<and>
   fst (update_section ''projectInfo'' (JStr ''brief'') None
     (new_manager\<lparr>memory_state :=
        JDict [(''metadata'', JDict [(''lastUpdated'', JStr ''t0'')]),
               (''projectInfo'', JList [])]\<rparr>)) = Inl TypeError \<and>
   fst (update_section ''tasks'' (JStr []) (Some [(''activeContext'', JStr ''reading'')])
     (new_manager\<lparr>memory_state :=
        JDict [(''metadata'', JDict [(''lastUpdated'', JStr ''t0'')]),
               (''tasks'', JDict [(''history'', JList [])])]\<rparr>)) = Inl KeyError \<and>
   fst (update_section ''tasks'' (JStr []) (Some [(''progress'', JStr ''half'')])
     (new_manager\<lparr>memory_state :=
        JDict [(''metadata'', JDict [(''lastUpdated'', JStr ''t0'')]),
               (''tasks'', JDict [(''current'', JDict []), (''history'', JStr ''none'')])]\<rparr>)) =
     Inl AttributeError"
  by (simp add: update_section_def then_do_def inspect_def returns_def mutate_def
      write_section_def write_active_context_def log_progress_def now_def)

section \<open>Logging a change\<close>

lemma ensure_change_history_dict:
  assumes "memory_state m = JDict d"
  shows "ensure_change_history m =
    (Inr (), m\<lparr>memory_state :=
       (case map_of d ''changeHistory'' of
          Some (JList entries) \<Rightarrow> JDict d
        | _ \<Rightarrow> JDict (AList.update ''changeHistory'' (JList []) d))\<rparr>)"
  using assms
  by (auto simp add: ensure_change_history_def then_do_def inspect_def mutate_def returns_def
      split: option.splits json.splits)




section \<open>Operations on a document without metadata\<close>

lemma has_dict_dict:
  "has_dict (JDict d) k = Inr (case map_of d k of Some (JDict x) \<Rightarrow> True | _ \<Rightarrow> False)"
  by (auto simp add: has_dict_def split: option.splits json.splits)

lemma log_change_no_metadata:
  assumes "memory_state m = JDict d" and "map_of d ''metadata'' = None"
  shows "fst (log_change description details m) = Inl KeyError"
proof -
  let ?entry = "change_entry (clock m (ticks m)) description details"
  let ?m1 = "m\<lparr>ticks := Suc (ticks m)\<rparr>"
  define d1 where "d1 =
    (case map_of d ''changeHistory'' of
       Some (JList entries) \<Rightarrow> d
     | _ \<Rightarrow> AList.update ''changeHistory'' (JList []) d)"
  have now: "now m = (Inr (clock m (ticks m)), ?m1)"
    by (simp add: now_def)
  have ens: "ensure_change_history ?m1 = (Inr (), ?m1\<lparr>memory_state := JDict d1\<rparr>)"
    using ensure_change_history_dict [of ?m1 d] assms(1)
    by (auto simp add: d1_def split: option.splits json.splits)
  have h1: "map_of d1 ''changeHistory'' = Some (JList (change_history (JDict d)))"
    by (auto simp add: d1_def update_conv' split: option.splits json.splits)
  have m1: "map_of d1 ''metadata'' = None"
    using assms(2) by (auto simp add: d1_def update_conv' split: option.splits json.splits)
  define d2 where "d2 = AList.update ''changeHistory''
      (JList (change_history (JDict d) @ [?entry])) d1"
  let ?m2 = "?m1\<lparr>memory_state := JDict d2\<rparr>"
  have app: "mutate (modify_at [''changeHistory''] (\<lambda>history. append_item history ?entry))
      (?m1\<lparr>memory_state := JDict d1\<rparr>) = (Inr (), ?m2)"
    using h1 by (simp add: mutate_def d2_def)
  have m2: "map_of d2 ''metadata'' = None"
    using m1 by (simp add: d2_def update_conv')
  have ms2: "memory_state ?m2 = JDict d2" by simp
  have "log_change description details m = save_memory_state ?m2"
    using now ens app by (simp add: log_change_def then_do_def)
  then show ?thesis
    using save_memory_state_no_metadata [OF ms2 m2] by simp
qed

lemma update_section_no_metadata:
  assumes "memory_state m = JDict d" and "map_of d ''metadata'' = None"
    and "map_of d section_name = Some v"
    and "writable_section section_name v metadata"
  shows "fst (update_section section_name content metadata m) = Inl KeyError"
proof -
  have present: "contains (memory_state m) section_name = Inr True"
    using assms(1,3) by simp
  show ?thesis
  proof (cases "is_dict v")
    case False
    note w = write_section_skip [OF assms(1,3) False assms(4)]
    note c = mark_complete_skip [OF assms(1,3) False]
    note sv = save_memory_state_no_metadata [OF assms(1,2)]
    show ?thesis
      using present w c sv
      by (simp add: update_section_def then_do_def inspect_def returns_def)
  next
    case True
    then obtain sec where v: "v = JDict sec" by (auto simp add: is_dict_iff)
    have neq: "section_name \<noteq> ''metadata''" using assms(2,3) by auto
    from write_section_frame [OF assms(1) assms(3) [unfolded v] assms(4) [unfolded v]]
    obtain m1 d1 sec1 where
      w: "write_section section_name content metadata m = (Inr (), m1)" "memory_state m1 = JDict d1"
        "map_of d1 = (map_of d)(section_name \<mapsto> JDict sec1)"
      by blast
    have s1: "map_of d1 section_name = Some (JDict sec1)" using w(3) by simp
    from mark_complete_frame [OF w(2) s1] obtain m2 d2 sec2 where
      c: "mark_complete section_name m1 = (Inr (), m2)" "memory_state m2 = JDict d2"
        "map_of d2 = (map_of d1)(section_name \<mapsto> JDict sec2)"
      by blast
    have "map_of d2 ''metadata'' = None"
      using c(3) w(3) assms(2) neq by simp
    note sv = save_memory_state_no_metadata [OF c(2) this]
    show ?thesis
      using present w(1) c(1) sv
      by (simp add: update_section_def then_do_def inspect_def returns_def)
  qed
qed

lemma import_target_special:
  assumes "file_name = ''activeContext.md'' \<or> file_name = ''progress.md''"
  shows "import_target (JDict d) file_name \<longleftrightarrow>
    (\<exists>tasks cur. map_of d ''tasks'' = Some (JDict tasks) \<and>
       map_of tasks ''current'' = Some (JDict cur))"
proof (cases "map_of d ''tasks''")
  case None
  then show ?thesis using assms by auto
next
  case (Some v)
  show ?thesis
  proof (cases v)
    case (JDict tasks)
    show ?thesis
    proof (cases "map_of tasks ''current''")
      case None
      then show ?thesis using assms Some JDict by auto
    next
      case (Some c)
      then show ?thesis
        using assms \<open>map_of d ''tasks'' = Some v\<close> JDict by (cases c) auto
    qed
  qed (use assms Some in auto)
qed

lemma import_target_regular:
  assumes "file_name \<noteq> ''activeContext.md''" and "file_name \<noteq> ''progress.md''"
    and "map_of import_mapping file_name = Some section_name"
  shows "import_target (JDict d) file_name \<longleftrightarrow>
    (\<exists>sec. map_of d section_name = Some (JDict sec))"
proof (cases "map_of d section_name")
  case None
  then show ?thesis using assms by simp
next
  case (Some v)
  then show ?thesis using assms by (cases v) simp_all
qed

lemma import_into_current_no_metadata:
  assumes "memory_state m = JDict d" and "map_of d ''metadata'' = None"
    and "file_name = ''activeContext.md'' \<or> file_name = ''progress.md''"
  shows "fst (import_into_current field content m) =
    (if import_target (JDict d) file_name then Inl KeyError else Inr False)"
proof (cases "\<exists>tasks cur. map_of d ''tasks'' = Some (JDict tasks) \<and>
    map_of tasks ''current'' = Some (JDict cur)")
  case False
  then have "import_into_current field content m = (Inr False, m)"
    using assms(1)
    by (auto simp add: import_into_current_def then_do_def inspect_def returns_def has_dict_dict
        split: option.splits json.splits)
  moreover have "\<not> import_target (JDict d) file_name"
    using False import_target_special [OF assms(3)] by simp
  ultimately show ?thesis by simp
next
  case True
  then obtain tasks cur where t: "map_of d ''tasks'' = Some (JDict tasks)"
    and c: "map_of tasks ''current'' = Some (JDict cur)"
    by blast
  let ?d' = "AList.update ''tasks''
     (JDict (AList.update ''current'' (JDict (AList.update field (JStr content) cur)) tasks)) d"
  let ?m' = "m\<lparr>memory_state := JDict ?d'\<rparr>"
  have "memory_state ?m' = JDict ?d'" by simp
  moreover have "map_of ?d' ''metadata'' = None"
    using assms(2) by (simp add: update_conv')
  ultimately have "save_memory_state ?m' = (Inl KeyError, ?m'\<lparr>ticks := Suc (ticks ?m')\<rparr>)"
    by (rule save_memory_state_no_metadata)
  then have "fst (import_into_current field content m) = Inl KeyError"
    using assms(1) t c
    by (simp add: import_into_current_def then_do_def inspect_def returns_def has_dict_dict
        mutate_def)
  moreover have "import_target (JDict d) file_name"
    using t c import_target_special [OF assms(3)] by simp
  ultimately show ?thesis by simp
qed

lemma import_regular_no_metadata:
  assumes "memory_state m = JDict d" and "map_of d ''metadata'' = None"
    and "file_name \<noteq> ''activeContext.md''" and "file_name \<noteq> ''progress.md''"
  shows "fst (import_regular file_name content m) =
    (if import_target (JDict d) file_name then Inl KeyError else Inr False)"
proof (cases "map_of import_mapping file_name")
  case None
  then show ?thesis using assms(3,4) by (simp add: import_regular_def returns_def)
next
  case (Some section_name)
  show ?thesis
  proof (cases "\<exists>sec. map_of d section_name = Some (JDict sec)")
    case False
    then have "import_regular file_name content m = (Inr False, m)"
      using assms(1) Some
      by (auto simp add: import_regular_def then_do_def inspect_def returns_def has_dict_dict
          split: option.splits json.splits)
    moreover have "\<not> import_target (JDict d) file_name"
      using False import_target_regular [OF assms(3,4) Some] by simp
    ultimately show ?thesis by simp
  next
    case True
    then obtain sec where sec: "map_of d section_name = Some (JDict sec)" by blast
    then have neq: "section_name \<noteq> ''metadata''" using assms(2) by auto
    let ?d1 = "AList.update section_name (JDict (AList.update ''content'' (JStr content) sec)) d"
    let ?d2 = "AList.update section_name
        (JDict (AList.update ''status'' (JStr ''Complete'')
           (AList.update ''content'' (JStr content) sec))) ?d1"
    let ?m2 = "m\<lparr>memory_state := JDict ?d2\<rparr>"
    have "memory_state ?m2 = JDict ?d2" by simp
    moreover have "map_of ?d2 ''metadata'' = None"
      using assms(2) neq by (simp add: update_conv')
    ultimately have "save_memory_state ?m2 = (Inl KeyError, ?m2\<lparr>ticks := Suc (ticks ?m2)\<rparr>)"
      by (rule save_memory_state_no_metadata)
    then have "fst (import_regular file_name content m) = Inl KeyError"
      using assms(1) Some sec
      by (simp add: import_regular_def then_do_def inspect_def returns_def has_dict_dict
          mutate_def update_conv')
    moreover have "import_target (JDict d) file_name"
      using sec import_target_regular [OF assms(3,4) Some] by simp
    ultimately show ?thesis by simp
  qed
qed

lemma import_markdown_no_metadata:
  assumes "memory_state m = JDict d" and "map_of d ''metadata'' = None"
  shows "fst (import_markdown section_name file_path m) =
    (if import_writes m section_name file_path then Inl KeyError else Inr False)"
proof (cases "import_path m section_name file_path")
  case None
  then show ?thesis by (simp add: import_markdown_def import_writes_def)
next
  case (Some p)
  show ?thesis
  proof (cases "files m p")
    case None
    then show ?thesis using Some by (simp add: import_markdown_def import_writes_def)
  next
    case (Some f)
    note found = this
    show ?thesis
    proof (cases f)
      case Undecodable
      then show ?thesis
        using \<open>import_path m section_name file_path = Some p\<close> found
        by (simp add: import_markdown_def import_writes_def)
    next
      case (Text body)
      have w: "import_writes m section_name file_path = import_target (JDict d) (path_name p)"
        using \<open>import_path m section_name file_path = Some p\<close> found Text assms(1)
        by (simp add: import_writes_def)
      show ?thesis
      proof (cases "path_name p = ''activeContext.md'' \<or> path_name p = ''progress.md''")
        case True
        then show ?thesis
          using \<open>import_path m section_name file_path = Some p\<close> found Text w
            import_into_current_no_metadata [OF assms True]
          by (auto simp add: import_markdown_def Let_def)
      next
        case False
        then have n: "path_name p \<noteq> ''activeContext.md''" "path_name p \<noteq> ''progress.md''"
          by auto
        show ?thesis
          using \<open>import_path m section_name file_path = Some p\<close> found Text w n
            import_regular_no_metadata [OF assms n]
          by (simp add: import_markdown_def Let_def)
      qed
    qed
  qed
qed

text \<open>
  C10. On a document that is a dict without a \<^verbatim>\<open>metadata\<close> key,
  \<^verbatim>\<open>save_memory_state\<close> raises KeyError, and so does every operation that reaches it:
  \<^verbatim>\<open>log_change\<close> always; \<^verbatim>\<open>update_section\<close> when the name is a key of the document
  and the section-specific step finds what it reads, while for a name that is not a key it
  returns False without raising; \<^verbatim>\<open>import_markdown\<close> exactly when the file it resolves
  exists, can be read and has a dict to be written into (\<open>import_writes\<close>), while in
  every other case it returns False without raising. The counterexample is the empty
  document, on which \<^verbatim>\<open>update_section\<close> and \<^verbatim>\<open>import_markdown\<close> return False.
\<close>

theorem persist_without_metadata_raises:
  assumes "memory_state m = JDict d" and "map_of d ''metadata'' = None"
  shows "fst (save_memory_state m) = Inl KeyError \<and>
    fst (log_change description details m) = Inl KeyError \<and>
    (map_of d section_name = None \<longrightarrow>
       fst (update_section section_name content metadata m) = Inr False) \<and>
    (\<forall>v. map_of d section_name = Some v \<and> writable_section section_name v metadata \<longrightarrow>
       fst (update_section section_name content metadata m) = Inl KeyError) \<and>
    fst (import_markdown import_name file_path m) =
      (if import_writes m import_name file_path then Inl KeyError else Inr False)"
proof -
  have "fst (save_memory_state m) = Inl KeyError"
    using save_memory_state_no_metadata [OF assms] by simp
  moreover have "fst (log_change description details m) = Inl KeyError"
    by (rule log_change_no_metadata [OF assms])
  moreover have "fst (update_section section_name content metadata m) = Inr False"
    if "map_of d section_name = None"
    using assms(1) that by (simp add: update_section_def then_do_def inspect_def returns_def)
  moreover have "fst (update_section section_name content metadata m) = Inl KeyError"
    if "map_of d section_name = Some v" "writable_section section_name v metadata" for v
    using update_section_no_metadata [OF assms that] .
  moreover note import_markdown_no_metadata [OF assms, of import_name file_path]
  ultimately show ?thesis by blast
qed

theorem persist_without_metadata_raises_witness:
  "fst (save_memory_state
     (new_manager\<lparr>memory_state := JDict [(''projectInfo'', JDict [(''status'', JStr ''Pending'')])],
        files := [Path ''demo/memory-bank'' ''projectbrief.md'' \<mapsto> Text ''# Brief'']\<rparr>)) =
     Inl KeyError \<and>
   fst (log_change (JStr ''note'') None
     (new_manager\<lparr>memory_state := JDict [(''projectInfo'', JDict [(''status'', JStr ''Pending'')])],
        files := [Path ''demo/memory-bank'' ''projectbrief.md'' \<mapsto> Text ''# Brief'']\<rparr>)) =
     Inl KeyError \<and>
   fst (update_section ''projectInfo'' (JStr ''brief'') None
     (new_manager\<lparr>memory_state := JDict [(''projectInfo'', JDict [(''status'', JStr ''Pending'')])],
        files := [Path ''demo/memory-bank'' ''projectbrief.md'' \<mapsto> Text ''# Brief'']\<rparr>)) =
     Inl KeyError \<and>
   fst (update_section ''doesNotExist'' (JStr ''brief'') None
     (new_manager\<lparr>memory_state := JDict [(''projectInfo'', JDict [(''status'', JStr ''Pending'')])],
        files := [Path ''demo/memory-bank'' ''projectbrief.md'' \<mapsto> Text ''# Brief'']\<rparr>)) =
     Inr False \<and>
   fst (import_markdown ''projectInfo'' None
     (new_manager\<lparr>memory_state := JDict [(''projectInfo'', JDict [(''status'', JStr ''Pending'')])],
        files := [Path ''demo/memory-bank'' ''projectbrief.md'' \<mapsto> Text ''# Brief'']\<rparr>)) =
     Inl KeyError \<and>
   fst (import_markdown ''productContext'' None
     (new_manager\<lparr>memory_state := JDict [(''projectInfo'', JDict [(''status'', JStr ''Pending'')])],
        files := [Path ''demo/memory-bank'' ''projectbrief.md'' \<mapsto> Text ''# Brief'']\<rparr>)) =
     Inr False"
proof -
  let ?m = "new_manager\<lparr>memory_state := JDict [(''projectInfo'', JDict [(''status'', JStr ''Pending'')])],
        files := [Path ''demo/memory-bank'' ''projectbrief.md'' \<mapsto> Text ''# Brief'']\<rparr>"
  have ms: "memory_state ?m = JDict [(''projectInfo'', JDict [(''status'', JStr ''Pending'')])]"
    by simp
  have meta: "map_of [(''projectInfo'', JDict [(''status'', JStr ''Pending'')])] ''metadata'' = None"
    by simp
  have reaches: "import_writes ?m ''projectInfo'' None"
    by (simp add: import_writes_def import_path_def import_mapping_def new_manager_def)
  have stops: "\<not> import_writes ?m ''productContext'' None"
    by (simp add: import_writes_def import_path_def import_mapping_def new_manager_def)
  note known = persist_without_metadata_raises [OF ms meta,
      where section_name = "''projectInfo''" and metadata = None
        and import_name = "''projectInfo''" and file_path = None]
  note unknown = persist_without_metadata_raises [OF ms meta,
      where section_name = "''doesNotExist''" and metadata = None
        and import_name = "''productContext''" and file_path = None]
  show ?thesis
    using known unknown reaches stops
    by (simp add: writable_section_def)
qed

theorem persist_without_metadata_counterexample:
  "fst (update_section ''projectInfo'' (JStr ''brief'') None new_manager) = Inr False \<and>
   fst (import_markdown ''projectInfo'' None new_manager) = Inr False \<and>
   memory_state new_manager = JDict []"
  by (simp add: update_section_def then_do_def inspect_def returns_def new_manager_def
      import_markdown_def import_path_def import_mapping_def)

section \<open>Exporting a section\<close>

text \<open>
  C9. Exporting a single section whose name is a key of the document and has no entry
  in the filename mapping reaches \<^verbatim>\<open>return md_file\<close> with \<^verbatim>\<open>md_file\<close> never bound:
  the call raises UnboundLocalError, and nothing has been written.
\<close>

theorem export_unmapped_section_raises:
  "memory_state m = JDict d \<Longrightarrow> map_of d section_name \<noteq> None \<Longrightarrow>
   map_of export_mapping section_name = None \<Longrightarrow> section_name \<noteq> [] \<Longrightarrow>
     export_markdown (Some section_name) m = (Inl UnboundLocalError, m)"
  by (auto simp add: export_section_def then_do_def inspect_def returns_def raises_def
      export_mapping_def split: if_splits)

theorem export_unmapped_section_raises_witness:
  "export_markdown (Some ''standards'')
     (new_manager\<lparr>memory_state := initial_state ''demo'' ''t0'' ''t1''\<rparr>) =
   (Inl UnboundLocalError, new_manager\<lparr>memory_state := initial_state ''demo'' ''t0'' ''t1''\<rparr>)"
proof -
  obtain d where doc: "initial_state ''demo'' ''t0'' ''t1'' = JDict d"
    and key: "map_of d ''standards'' \<noteq> None"
    by (simp add: initial_state_def)
  have "memory_state (new_manager\<lparr>memory_state := initial_state ''demo'' ''t0'' ''t1''\<rparr>) = JDict d"
    using doc by simp
  from export_unmapped_section_raises [OF this key] show ?thesis
    by (simp add: export_mapping_def)
qed

section \<open>Export followed by import\<close>








end
